theory Spec2Isabelle
  imports Main "HOL-Library.Word"
begin

section \<open>Data model\<close>

type_synonym uint64 = "64 word"
type_synonym uint8 = "8 word"

text \<open>A Go \<open>error\<close> value is represented by the text it formats to.\<close>

type_synonym err = string

text \<open>
  \<open>model.Response\<close>, the JSON body every API handler writes with HTTP status 200; the
  outcome is carried by \<open>Code\<close>. \<open>Result\<close> is only ever a string-to-string table.
\<close>

record Response =
  Code :: nat
  Message :: string
  Result :: "(string \<times> string) list"

definition StatusOK :: nat where
  "StatusOK = 200"

definition StatusBadRequest :: nat where
  "StatusBadRequest = 400"

text \<open>\<open>model.ApiToken\<close> and the request body of \<open>issueNewToken\<close>.\<close>

record ApiToken =
  UserID :: uint64
  Token :: string
  Note :: string

record TokenForm =
  form_Note :: string

text \<open>
  \<open>model.Cron\<close>, with the fields the handlers read or write. \<open>CronJobID\<close> is the
  handle the scheduler engine returned for the job's timer, zero when there is none.
\<close>

record Cron =
  ID :: uint64
  Name :: string
  TaskType :: uint8
  Scheduler :: string
  Command :: string
  Servers :: "uint64 list"
  ServersRaw :: string
  PushSuccessful :: bool
  Cover :: uint8
  CronJobID :: int

record cronForm =
  form_ID :: uint64
  form_TaskType :: uint8
  form_Name :: string
  form_Scheduler :: string
  form_Command :: string
  form_ServersRaw :: string
  form_Cover :: uint8
  form_PushSuccessful :: string
  form_NotificationTag :: string

text \<open>
  The two constants of package \<open>model\<close> that \<open>addOrEditCron\<close> compares against. Their
  declarations are not part of the sources at hand, so they are parameters.
\<close>

record model_consts =
  CronTypeCronTask :: uint8
  CronCoverAlertTrigger :: uint8

text \<open>
  An agent's record as far as the dispatch code reads it: the open task stream, absent
  (\<open>nil\<close>) when the agent is not connected. A stream is named by a handle.
\<close>

record Server =
  TaskStream :: "nat option"

datatype task_type = TaskTypeUpgrade | TaskTypeFM | TaskTypeReportHostInfo

text \<open>
  \<open>proto.Task\<close>. The payload is either a literal string or the JSON encoding of a
  \<open>model.TaskFM\<close> carrying a session identifier.
\<close>

datatype task_data = Raw string | TaskFM_JSON string

record Task =
  Type :: task_type
  Data :: task_data

section \<open>Effects\<close>

text \<open>
  Every call that leaves the handler (database, scheduler engine, agent stream, session
  manager, locks) is recorded, in program order, in a trace. The writes to the job
  registry are recorded as well, so that their order relative to the scheduler calls
  can be stated.
\<close>

datatype lock_name = ServerLock | CronLock | ApiLock

datatype table = T_ApiToken | T_NAT | T_Monitor | T_MonitorHistory | T_Cron | T_AlertRule

datatype db_arg = ArgU64 uint64 | ArgStr string

datatype event =
    Lock lock_name
  | Unlock lock_name
  | RLock lock_name
  | RUnlock lock_name
  | DBCreateToken ApiToken
  | DBDelete table string db_arg
  | TxBegin
  | TxCreate Cron
  | TxSave Cron
  | TxCommit
  | TxRollback
  | CronAddFunc string Cron
  | CronRemove int
  | CronsDelete uint64
  | CronsStore uint64
  | OnNATUpdate
  | OnMonitorDelete uint64
  | OnDeleteAlert uint64
  | Send nat Task
  | Sleep nat
  | CreateStream string
  | GetStream string
  | CloseStream string
  | UserConnected string
  | StartStream string nat
  | Upgrade
  | WsClose
  | GoPing

text \<open>
  Modelled from the spec: the states a session of the session manager goes through
  before it is closed. The session manager is not among the sources.
\<close>

datatype session_state = Created | AgentAttached | UserAttached | Relaying

text \<open>
  The process-wide state: the registries of package \<open>singleton\<close>, the session table
  of the RPC handler singleton, and the trace. The registries of agents and of jobs
  map a key to a pointer, and their readers treat a \<open>nil\<close> pointer like a missing
  key (\<open>server == nil\<close>, \<open>cr != nil\<close>): both are a missing key here. The writers of
  the token registry store pointers to fresh records only.
\<close>

record world =
  ApiTokenList :: "string \<rightharpoonup> ApiToken"
  UserIDToApiTokenList :: "uint64 \<rightharpoonup> string list"
  Crons :: "uint64 \<rightharpoonup> Cron"
  ServerList :: "uint64 \<rightharpoonup> Server"
  ioStreams :: "string \<rightharpoonup> session_state"
  trace :: "event list"

definition log :: "event \<Rightarrow> world \<Rightarrow> world" where
  "log e w = w\<lparr>trace := trace w @ [e]\<rparr>"

definition logs :: "event list \<Rightarrow> world \<Rightarrow> world" where
  "logs es w = w\<lparr>trace := trace w @ es\<rparr>"

text \<open>The events a run from \<open>w\<close> to \<open>w'\<close> has added to the trace.\<close>

definition events_since :: "world \<Rightarrow> world \<Rightarrow> event list" where
  "events_since w w' = drop (length (trace w)) (trace w')"

text \<open>
  Modelled from the spec: the session table of the RPC handler singleton
  (\<open>rpc.NezhaHandlerSingleton\<close>), whose code is not among the sources. Creating a
  session stores it in state \<open>Created\<close>; looking one up fails when the identifier is
  unknown; closing removes the record and is a no-op when there is none.
\<close>

definition rpc_CreateStream :: "string \<Rightarrow> world \<Rightarrow> world" where
  "rpc_CreateStream streamId w =
     log (CreateStream streamId) (w\<lparr>ioStreams := (ioStreams w)(streamId \<mapsto> Created)\<rparr>)"

definition rpc_GetStream :: "string \<Rightarrow> world \<Rightarrow> err + session_state" where
  "rpc_GetStream streamId w =
     (case ioStreams w streamId of
        None \<Rightarrow> Inl ''stream not found''
      | Some s \<Rightarrow> Inr s)"

definition rpc_CloseStream :: "string \<Rightarrow> world \<Rightarrow> world" where
  "rpc_CloseStream streamId w =
     log (CloseStream streamId) (w\<lparr>ioStreams := (ioStreams w)(streamId := None)\<rparr>)"

text \<open>
  Deferred calls. \<open>defer f()\<close> pushes the call; when the function returns, the pushed
  calls run last-in first-out. The head of the list is the call deferred last.
\<close>

fun run_deferred :: "event \<Rightarrow> world \<Rightarrow> world" where
  "run_deferred (CloseStream streamId) w = rpc_CloseStream streamId w"
| "run_deferred e w = log e w"

fun run_defers :: "event list \<Rightarrow> world \<Rightarrow> world" where
  "run_defers [] w = w"
| "run_defers (d # ds) w = run_defers ds (run_deferred d w)"

section \<open>Standard-library functions the handlers call\<close>

definition is_digit :: "char \<Rightarrow> bool" where
  "is_digit c = (48 \<le> (of_char c :: nat) \<and> (of_char c :: nat) \<le> 57)"

definition digit_val :: "char \<Rightarrow> nat" where
  "digit_val c = of_char c - 48"

datatype num_error = ErrSyntax | ErrRange

definition maxUint64 :: nat where
  "maxUint64 = 2 ^ 64 - 1"

text \<open>
  \<open>strconv.ParseUint(s, 10, 64)\<close>: the digit loop, with \<open>n\<close> the value read so far.
  A character that is not a decimal digit gives \<open>(0, syntax error)\<close>; a value that
  no longer fits 64 bits gives \<open>(2^64 - 1, range error)\<close> at once.
\<close>

fun ParseUint_loop :: "nat \<Rightarrow> string \<Rightarrow> uint64 \<times> num_error option" where
  "ParseUint_loop n [] = (word_of_nat n, None)"
| "ParseUint_loop n (c # cs) =
     (if \<not> is_digit c then (0, Some ErrSyntax)
      else if n \<ge> maxUint64 div 10 + 1 then (word_of_nat maxUint64, Some ErrRange)
      else if n * 10 + digit_val c > maxUint64 then (word_of_nat maxUint64, Some ErrRange)
      else ParseUint_loop (n * 10 + digit_val c) cs)"

definition ParseUint :: "string \<Rightarrow> uint64 \<times> num_error option" where
  "ParseUint s = (if s = [] then (0, Some ErrSyntax) else ParseUint_loop 0 s)"

text \<open>
  \<open>strconv.Atoi\<close> on a 64-bit platform: an optional sign, then decimal digits, the
  value within the range of \<open>int\<close>; \<open>None\<close> stands for either error.
\<close>

definition Atoi :: "string \<Rightarrow> int option" where
  "Atoi s =
     (case s of
        [] \<Rightarrow> None
      | c # cs \<Rightarrow>
          (let neg = (c = CHR ''-'');
               body = (if c = CHR ''-'' \<or> c = CHR ''+'' then cs else s)
           in if body = [] then None
              else (case ParseUint_loop 0 body of
                      (un, Some e) \<Rightarrow> None
                    | (un, None) \<Rightarrow>
                        if \<not> neg \<and> unat un \<ge> 2 ^ 63 then None
                        else if neg \<and> unat un > 2 ^ 63 then None
                        else Some (if neg then - int (unat un) else int (unat un)))))"

text \<open>\<open>%d\<close> of an unsigned integer: its decimal digits.\<close>

function show_nat :: "nat \<Rightarrow> string" where
  "show_nat n =
     (if n < 10 then [char_of (48 + n)]
      else show_nat (n div 10) @ [char_of (48 + n mod 10)])"
  by pat_completeness auto
termination
  by (relation "measure id") auto

declare show_nat.simps [simp del]

section \<open>Messages\<close>

text \<open>The message texts of the source, as the UTF-8 bytes of its string literals.\<close>

definition msg_request_error :: string where
  "msg_request_error =
     [CHR 0xE8, CHR 0xAF, CHR 0xB7, CHR 0xE6, CHR 0xB1, CHR 0x82, CHR 0xE9, CHR 0x94,
      CHR 0x99, CHR 0xE8, CHR 0xAF, CHR 0xAF, CHR 0xEF, CHR 0xBC, CHR 0x9A]"

definition msg_token_empty :: string where
  "msg_token_empty =
     ''token '' @ [CHR 0xE4, CHR 0xB8, CHR 0x8D, CHR 0xE8, CHR 0x83, CHR 0xBD, CHR 0xE4,
      CHR 0xB8, CHR 0xBA, CHR 0xE7, CHR 0xA9, CHR 0xBA]"

definition msg_token_not_exist :: string where
  "msg_token_not_exist =
     ''token '' @ [CHR 0xE4, CHR 0xB8, CHR 0x8D, CHR 0xE5, CHR 0xAD, CHR 0x98, CHR 0xE5,
      CHR 0x9C, CHR 0xA8]"

definition msg_bad_server_id :: string where
  "msg_bad_server_id =
     [CHR 0xE9, CHR 0x94, CHR 0x99, CHR 0xE8, CHR 0xAF, CHR 0xAF, CHR 0xE7, CHR 0x9A,
      CHR 0x84] @ '' Server ID''"

definition msg_db_error :: string where
  "msg_db_error =
     [CHR 0xE6, CHR 0x95, CHR 0xB0, CHR 0xE6, CHR 0x8D, CHR 0xAE, CHR 0xE5, CHR 0xBA,
      CHR 0x93, CHR 0xE9, CHR 0x94, CHR 0x99, CHR 0xE8, CHR 0xAF, CHR 0xAF, CHR 0xEF,
      CHR 0xBC, CHR 0x9A]"

definition msg_cron_cover :: string where
  "msg_cron_cover =
     [CHR 0xE8, CHR 0xAE, CHR 0xA1, CHR 0xE5, CHR 0x88, CHR 0x92, CHR 0xE4, CHR 0xBB,
      CHR 0xBB, CHR 0xE5, CHR 0x8A, CHR 0xA1, CHR 0xE7, CHR 0xB1, CHR 0xBB, CHR 0xE5,
      CHR 0x9E, CHR 0x8B, CHR 0xE4, CHR 0xB8, CHR 0x8D, CHR 0xE5, CHR 0xBE, CHR 0x97,
      CHR 0xE4, CHR 0xBD, CHR 0xBF, CHR 0xE7, CHR 0x94, CHR 0xA8, CHR 0xE8, CHR 0xA7,
      CHR 0xA6, CHR 0xE5, CHR 0x8F, CHR 0x91, CHR 0xE6, CHR 0x9C, CHR 0x8D, CHR 0xE5,
      CHR 0x8A, CHR 0xA1, CHR 0xE5, CHR 0x99, CHR 0xA8, CHR 0xE6, CHR 0x89, CHR 0xA7,
      CHR 0xE8, CHR 0xA1, CHR 0x8C, CHR 0xE6, CHR 0x96, CHR 0xB9, CHR 0xE5, CHR 0xBC,
      CHR 0x8F]"

definition msg_offline :: string where
  "msg_offline =
     '' '' @ [CHR 0xE7, CHR 0xA6, CHR 0xBB, CHR 0xE7, CHR 0xBA, CHR 0xBF] @ ''<br/>''"

definition msg_send_failed :: string where
  "msg_send_failed =
     '' '' @ [CHR 0xE4, CHR 0xB8, CHR 0x8B, CHR 0xE5, CHR 0x8F, CHR 0x91, CHR 0xE6,
      CHR 0x8C, CHR 0x87, CHR 0xE4, CHR 0xBB, CHR 0xA4, CHR 0xE5, CHR 0xA4, CHR 0xB1,
      CHR 0xE8, CHR 0xB4, CHR 0xA5] @ '' ''"

definition msg_send_ok :: string where
  "msg_send_ok =
     '' '' @ [CHR 0xE4, CHR 0xB8, CHR 0x8B, CHR 0xE5, CHR 0x8F, CHR 0x91, CHR 0xE6,
      CHR 0x8C, CHR 0x87, CHR 0xE4, CHR 0xBB, CHR 0xA4, CHR 0xE6, CHR 0x88, CHR 0x90,
      CHR 0xE5, CHR 0x8A, CHR 0x9F] @ ''<br/>''"

definition bad_request :: "string \<Rightarrow> Response" where
  "bad_request m = \<lparr>Code = StatusBadRequest, Message = m, Result = []\<rparr>"

definition ok_response :: Response where
  "ok_response = \<lparr>Code = StatusOK, Message = [], Result = []\<rparr>"


section \<open>Protocol multiplexer (\<open>newHTTPandGRPCMux\<close>)\<close>

text \<open>
  An inbound request, reduced to what the multiplexer reads: the header table
  (\<open>http.Header\<close>, a map from canonical header names to the list of values received)
  and the URL path.
\<close>

record Request =
  Header :: "string \<rightharpoonup> string list"
  URL_Path :: string

text \<open>
  \<open>http.Header.Get\<close> of the Go standard library: the first value stored under the
  canonical form of the key, the empty string when there is none. The only key the
  multiplexer asks for, \<open>Content-Type\<close>, is its own canonical form.
\<close>

definition Header_Get :: "(string \<rightharpoonup> string list) \<Rightarrow> string \<Rightarrow> string" where
  "Header_Get h key =
     (case h key of None \<Rightarrow> [] | Some [] \<Rightarrow> [] | Some (v # _) \<Rightarrow> v)"

text \<open>\<open>strings.HasPrefix(s, prefix)\<close>: \<open>len(s) >= len(prefix) && s[:len(prefix)] == prefix\<close>.\<close>

definition HasPrefix :: "string \<Rightarrow> string \<Rightarrow> bool" where
  "HasPrefix s p = (length p \<le> length s \<and> take (length p) s = p)"

text \<open>
  The multiplexer. The two handlers are its arguments, as in the source; the service
  name \<open>proto.NezhaService_ServiceDesc.ServiceName\<close> comes from generated code and
  is a parameter here.
\<close>

definition newHTTPandGRPCMux ::
  "string \<Rightarrow> (Request \<Rightarrow> 'r) \<Rightarrow> (Request \<Rightarrow> 'r) \<Rightarrow> Request \<Rightarrow> 'r" where
  "newHTTPandGRPCMux ServiceName httpHandler grpcHandler r =
     (if Header_Get (Header r) ''Content-Type'' = ''application/grpc'' \<and>
         HasPrefix (URL_Path r) (''/'' @ ServiceName)
      then grpcHandler r
      else httpHandler r)"


section \<open>Token registry (\<open>issueNewToken\<close>, \<open>deleteToken\<close>)\<close>

text \<open>Reading a slice-valued map at a missing key gives the \<open>nil\<close> slice, of length 0.\<close>

definition slice_of :: "('k \<rightharpoonup> 'a list) \<Rightarrow> 'k \<Rightarrow> 'a list" where
  "slice_of m k = (case m k of None \<Rightarrow> [] | Some l \<Rightarrow> l)"

text \<open>
  \<open>issueNewToken\<close> for the authorised user \<open>u\<close>. \<open>bind\<close> is the outcome of parsing
  the request body, \<open>rand\<close> the outcome of \<open>utils.GenerateRandomString(32)\<close>. The
  result of the database insert is not looked at.
\<close>

definition issueNewToken ::
  "uint64 \<Rightarrow> err + TokenForm \<Rightarrow> err + string \<Rightarrow> world \<Rightarrow> Response \<times> world" where
  "issueNewToken u bind rand w =
     (case bind of
        Inl e \<Rightarrow> (bad_request (msg_request_error @ e), w)
      | Inr tf \<Rightarrow>
          (case rand of
             Inl e \<Rightarrow> (bad_request (msg_request_error @ e), w)
           | Inr secureToken \<Rightarrow>
               (let token = \<lparr>UserID = u, Token = secureToken, Note = form_Note tf\<rparr>;
                    w1 = log (DBCreateToken token) w;
                    w2 = log (Lock ApiLock) w1;
                    w3 = w2\<lparr>ApiTokenList := (ApiTokenList w2)(Token token \<mapsto> token)\<rparr>;
                    w4 = w3\<lparr>UserIDToApiTokenList :=
                           (UserIDToApiTokenList w3)
                             (u \<mapsto> slice_of (UserIDToApiTokenList w3) u @ [Token token])\<rparr>;
                    w5 = log (Unlock ApiLock) w4
                in (\<lparr>Code = StatusOK, Message = ''success'',
                      Result = [(''token'', Token token), (''note'', Note token)]\<rparr>, w5))))"

text \<open>The index at which the removal loop of \<open>deleteToken\<close> stops: the first match.\<close>

fun index_of :: "string \<Rightarrow> string list \<Rightarrow> nat option" where
  "index_of t [] = None"
| "index_of t (x # xs) = (if x = t then Some 0 else map_option Suc (index_of t xs))"

definition deleteToken :: "string \<Rightarrow> world \<Rightarrow> Response \<times> world" where
  "deleteToken token w =
     (if token = [] then (bad_request msg_token_empty, w)
      else
        (let w1 = log (Lock ApiLock) w in
         case ApiTokenList w1 token of
           None \<Rightarrow> (bad_request msg_token_not_exist, run_defers [Unlock ApiLock] w1)
         | Some tok \<Rightarrow>
             (let w2 = log (DBDelete T_ApiToken ''token = ?'' (ArgStr token)) w1;
                  uid = UserID tok;
                  l = slice_of (UserIDToApiTokenList w2) uid;
                  w3 = (case index_of token l of
                          None \<Rightarrow> w2
                        | Some i \<Rightarrow>
                            w2\<lparr>UserIDToApiTokenList :=
                                 (UserIDToApiTokenList w2)(uid \<mapsto> take i l @ drop (i + 1) l)\<rparr>);
                  w4 = (if length (slice_of (UserIDToApiTokenList w3) uid) = 0
                        then w3\<lparr>UserIDToApiTokenList := (UserIDToApiTokenList w3)(uid := None)\<rparr>
                        else w3);
                  w5 = w4\<lparr>ApiTokenList := (ApiTokenList w4)(token := None)\<rparr>
              in (\<lparr>Code = StatusOK, Message = ''success'', Result = []\<rparr>,
                  run_defers [Unlock ApiLock] w5))))"

section \<open>Generic delete (\<open>delete\<close>)\<close>

text \<open>
  \<open>db\<close> gives the error, if any, with which the database answers a statement. The
  value is a triple: the error of the \<open>switch\<close>, the calls deferred in it, the state.
\<close>

definition delete ::
  "(event \<Rightarrow> err option) \<Rightarrow> string \<Rightarrow> string \<Rightarrow> world \<Rightarrow> Response \<times> world" where
  "delete db model_param id_param w =
     (let id = fst (ParseUint id_param) in
      if id < 1 then (bad_request msg_bad_server_id, w)
      else
        (case
           (if model_param = ''nat'' then
              (let q = DBDelete T_NAT ''id = ?'' (ArgU64 id); w1 = log q w in
               if db q = None then (None, [], log OnNATUpdate w1) else (db q, [], w1))
            else if model_param = ''monitor'' then
              (let q = DBDelete T_Monitor ''id = ?'' (ArgU64 id); w1 = log q w in
               if db q = None then
                 (let w2 = log (OnMonitorDelete id) w1;
                      q2 = DBDelete T_MonitorHistory ''monitor_id = ?'' (ArgU64 id)
                  in (db q2, [], log q2 w2))
               else (db q, [], w1))
            else if model_param = ''cron'' then
              (let q = DBDelete T_Cron ''id = ?'' (ArgU64 id); w1 = log q w in
               if db q = None then
                 (let w2 = log (RLock CronLock) w1;
                      w3 = (case Crons w2 id of
                              None \<Rightarrow> w2
                            | Some cr \<Rightarrow>
                                if CronJobID cr \<noteq> 0 then log (CronRemove (CronJobID cr)) w2
                                else w2);
                      w4 = log (CronsDelete id) (w3\<lparr>Crons := (Crons w3)(id := None)\<rparr>)
                  in (None, [RUnlock CronLock], w4))
               else (db q, [], w1))
            else if model_param = ''alert-rule'' then
              (let q = DBDelete T_AlertRule ''id = ?'' (ArgU64 id); w1 = log q w in
               if db q = None then (None, [], log (OnDeleteAlert id) w1) else (db q, [], w1))
            else (None, [], w))
         of (err, defers, w') \<Rightarrow>
           (case err of
              Some e \<Rightarrow> (bad_request (msg_db_error @ e), run_defers defers w')
            | None \<Rightarrow> (ok_response, run_defers defers w'))))"

section \<open>Scheduled jobs (\<open>addOrEditCron\<close>)\<close>

definition zero_Cron :: Cron where
  "zero_Cron =
     \<lparr>ID = 0, Name = [], TaskType = 0, Scheduler = [], Command = [], Servers = [],
      ServersRaw = [], PushSuccessful = False, Cover = 0, CronJobID = 0\<rparr>"

definition zero_cronForm :: cronForm where
  "zero_cronForm =
     \<lparr>form_ID = 0, form_TaskType = 0, form_Name = [], form_Scheduler = [],
      form_Command = [], form_ServersRaw = [], form_Cover = 0, form_PushSuccessful = [],
      form_NotificationTag = []\<rparr>"

text \<open>
  \<open>addOrEditCron\<close>. From the environment: \<open>bind\<close>, the outcome of parsing the body;
  \<open>unmarshal\<close>, the JSON decoder on the server list; \<open>db\<close>, the error of a database
  statement; \<open>new_id\<close>, the key the database gives a created row; \<open>addfunc\<close>, the
  outcome of registering a timer with the scheduler engine. The handler threads the
  variables \<open>err\<close> and \<open>cr\<close> through a chain of \<open>if err == nil\<close> blocks; each block is
  a function on the triple of \<open>err\<close>, \<open>cr\<close> and the state.
\<close>

text \<open>The first block: the form is parsed and copied into the job.\<close>

definition bind_cron ::
  "err + cronForm \<Rightarrow> (string \<Rightarrow> err + uint64 list) \<Rightarrow> err option \<times> Cron" where
  "bind_cron bind unmarshal =
     (case bind of
        Inl e \<Rightarrow> (Some e, zero_Cron)
      | Inr f \<Rightarrow>
          (let cr = zero_Cron
                 \<lparr>TaskType := form_TaskType f, Name := form_Name f,
                  Scheduler := form_Scheduler f, Command := form_Command f,
                  ServersRaw := form_ServersRaw f,
                  PushSuccessful := (form_PushSuccessful f = ''on''),
                  ID := form_ID f, Cover := form_Cover f\<rparr>
           in case unmarshal (form_ServersRaw f) of
                Inl e \<Rightarrow> (Some e, cr)
              | Inr sv \<Rightarrow> (None, cr\<lparr>Servers := sv\<rparr>)))"

text \<open>The row is created (identifier 0; the database assigns the key) or saved.\<close>

definition save_cron ::
  "cronForm \<Rightarrow> (event \<Rightarrow> err option) \<Rightarrow> uint64 \<Rightarrow> err option \<times> Cron \<times> world \<Rightarrow>
   err option \<times> Cron \<times> world" where
  "save_cron cf db new_id s =
     (case s of (err, cr, w) \<Rightarrow>
        if err = None then
          (if form_ID cf = 0 then
             (let q = TxCreate cr in
              (db q, (if db q = None then cr\<lparr>ID := new_id\<rparr> else cr), log q w))
           else (let q = TxSave cr in (db q, cr, log q w)))
        else (err, cr, w))"

text \<open>A job of the timer-based type gets a timer from the scheduler engine.\<close>

definition register_cron ::
  "model_consts \<Rightarrow> cronForm \<Rightarrow> err + int \<Rightarrow> err option \<times> Cron \<times> world \<Rightarrow>
   err option \<times> Cron \<times> world" where
  "register_cron mc cf addfunc s =
     (case s of (err, cr, w) \<Rightarrow>
        if err = None then
          (if form_TaskType cf = CronTypeCronTask mc then
             (let w' = log (CronAddFunc (Scheduler cr) cr) w in
              case addfunc of
                Inl e \<Rightarrow> (Some e, cr\<lparr>CronJobID := 0\<rparr>, w')
              | Inr h \<Rightarrow> (None, cr\<lparr>CronJobID := h\<rparr>, w'))
           else (None, cr, w))
        else (err, cr, w))"

text \<open>The transaction is committed, or rolled back after an error.\<close>

definition commit_cron ::
  "(event \<Rightarrow> err option) \<Rightarrow> err option \<times> Cron \<times> world \<Rightarrow> err option \<times> Cron \<times> world" where
  "commit_cron db s =
     (case s of (err, cr, w) \<Rightarrow>
        if err = None then (db TxCommit, cr, log TxCommit w)
        else (err, cr, log TxRollback w))"

text \<open>The last block, under the job lock: the in-memory record is replaced.\<close>

definition replace_cron :: "Cron \<Rightarrow> world \<Rightarrow> world" where
  "replace_cron cr w =
     (let w5 = log (Lock CronLock) w;
          w6 = (case Crons w5 (ID cr) of
                  None \<Rightarrow> w5
                | Some crOld \<Rightarrow>
                    if CronJobID crOld \<noteq> 0 then log (CronRemove (CronJobID crOld)) w5
                    else w5);
          w7 = log (CronsDelete (ID cr)) (w6\<lparr>Crons := (Crons w6)(ID cr := None)\<rparr>);
          w8 = log (CronsStore (ID cr)) (w7\<lparr>Crons := (Crons w7)(ID cr \<mapsto> cr)\<rparr>)
      in run_defers [Unlock CronLock] w8)"

definition addOrEditCron ::
  "model_consts \<Rightarrow> err + cronForm \<Rightarrow> (string \<Rightarrow> err + uint64 list) \<Rightarrow>
   (event \<Rightarrow> err option) \<Rightarrow> uint64 \<Rightarrow> err + int \<Rightarrow> world \<Rightarrow> Response \<times> world" where
  "addOrEditCron mc bind unmarshal db new_id addfunc w =
     (let cf = (case bind of Inl e \<Rightarrow> zero_cronForm | Inr f \<Rightarrow> f) in
      case bind_cron bind unmarshal of (err, cr) \<Rightarrow>
        if TaskType cr = CronTypeCronTask mc \<and> Cover cr = CronCoverAlertTrigger mc
        then (bad_request (msg_request_error @ msg_cron_cover), w)
        else
          (case commit_cron db
                  (register_cron mc cf addfunc
                     (save_cron cf db new_id (err, cr, log TxBegin w)))
           of (err, cr, w4) \<Rightarrow>
             (case err of
                Some e \<Rightarrow> (bad_request (msg_request_error @ e), w4)
              | None \<Rightarrow> (ok_response, replace_cron cr w4))))"

section \<open>Task dispatch (\<open>forceUpdate\<close>, \<open>dispatchReportInfoTask\<close>)\<close>

definition upgrade_task :: Task where
  "upgrade_task = \<lparr>Type = TaskTypeUpgrade, Data = Raw []\<rparr>"

definition report_task :: Task where
  "report_task = \<lparr>Type = TaskTypeReportHostInfo, Data = Raw []\<rparr>"

text \<open>
  The three texts \<open>forceUpdate\<close> formats for a target: \<open>fmt.Sprintf\<close> with \<open>%d\<close> for
  the identifier and, for a failed write, \<open>%+v\<close> for the error.
\<close>

definition fmt_offline :: "uint64 \<Rightarrow> string" where
  "fmt_offline sid = show_nat (unat sid) @ msg_offline"

definition fmt_send_failed :: "uint64 \<Rightarrow> err \<Rightarrow> string" where
  "fmt_send_failed sid e = show_nat (unat sid) @ msg_send_failed @ e @ ''<br/>''"

definition fmt_send_ok :: "uint64 \<Rightarrow> string" where
  "fmt_send_ok sid = show_nat (unat sid) @ msg_send_ok"

text \<open>
  The loop of \<open>forceUpdate\<close> from index \<open>i\<close> on. \<open>send i\<close> is the error, if any, that
  the stream write of iteration \<open>i\<close> returns. The value is the list of strings written
  to the buffer, one per iteration, and the events of the loop. The registry is read
  anew in every iteration; no other task changes it in between in this model.
\<close>

fun forceUpdate_loop ::
  "(nat \<Rightarrow> err option) \<Rightarrow> (uint64 \<rightharpoonup> Server) \<Rightarrow> nat \<Rightarrow> uint64 list \<Rightarrow>
   string list \<times> event list" where
  "forceUpdate_loop send servers i [] = ([], [])"
| "forceUpdate_loop send servers i (sid # rest) =
     (let here =
            (case servers sid of
               None \<Rightarrow> (fmt_offline sid, [])
             | Some server \<Rightarrow>
                 (case TaskStream server of
                    None \<Rightarrow> (fmt_offline sid, [])
                  | Some stream \<Rightarrow>
                      (case send i of
                         Some e \<Rightarrow> (fmt_send_failed sid e, [Send stream upgrade_task])
                       | None \<Rightarrow> (fmt_send_ok sid, [Send stream upgrade_task]))));
          later = forceUpdate_loop send servers (Suc i) rest
      in (fst here # fst later,
          [RLock ServerLock, RUnlock ServerLock] @ snd here @ snd later))"

definition forceUpdate ::
  "err + uint64 list \<Rightarrow> (nat \<Rightarrow> err option) \<Rightarrow> world \<Rightarrow> Response \<times> world" where
  "forceUpdate bind send w =
     (case bind of
        Inl e \<Rightarrow> (bad_request e, w)
      | Inr forceUpdateServers \<Rightarrow>
          (let r = forceUpdate_loop send (ServerList w) 0 forceUpdateServers
           in (\<lparr>Code = StatusOK, Message = concat (fst r), Result = []\<rparr>,
               logs (snd r) w)))"

text \<open>
  The loop of \<open>dispatchReportInfoTask\<close> over the keys in the order the runtime
  iterates the map. The result of the stream write is dropped by the source.
\<close>

fun report_loop :: "(uint64 \<rightharpoonup> Server) \<Rightarrow> uint64 list \<Rightarrow> event list" where
  "report_loop servers [] = []"
| "report_loop servers (k # ks) =
     (case servers k of
        None \<Rightarrow> report_loop servers ks
      | Some server \<Rightarrow>
          (case TaskStream server of
             None \<Rightarrow> report_loop servers ks
           | Some stream \<Rightarrow> Send stream report_task # report_loop servers ks))"

definition dispatchReportInfoTask :: "uint64 list \<Rightarrow> world \<Rightarrow> world" where
  "dispatchReportInfoTask order w =
     (let w1 = log (Sleep 15) w;
          w2 = log (RLock ServerLock) w1;
          w3 = logs (report_loop (ServerList w2) order) w2
      in run_defers [RUnlock ServerLock] w3)"

section \<open>Interactive sessions (\<open>createFM\<close>, \<open>fm\<close>)\<close>

text \<open>
  What \<open>createFM\<close> leaves the caller with: nothing written (every error page of the
  source is commented out), the session page, or a run-time panic (a method call on
  a \<open>nil\<close> stream).
\<close>

datatype fm_result = NoPage | SessionPage string | Panic

text \<open>
  \<open>createFM\<close>. \<open>authorized\<close>: whether the request carries an authorised user;
  \<open>uuid\<close>: the outcome of \<open>uuid.GenerateUUID\<close>; \<open>send\<close>: the error, if any, of the
  stream write.
\<close>

definition createFM ::
  "string \<Rightarrow> bool \<Rightarrow> err + string \<Rightarrow> err option \<Rightarrow> world \<Rightarrow> fm_result \<times> world" where
  "createFM IdString authorized uuid send w =
     (if \<not> authorized then (NoPage, w)
      else
        (case uuid of
           Inl e \<Rightarrow> (NoPage, w)
         | Inr streamId \<Rightarrow>
             (let w1 = rpc_CreateStream streamId w in
              case Atoi IdString of
                None \<Rightarrow> (NoPage, w1)
              | Some serverId \<Rightarrow>
                  (let w2 = logs [RLock ServerLock, RUnlock ServerLock] w1 in
                   case ServerList w2 (word_of_int serverId) of
                     None \<Rightarrow> (NoPage, w2)
                   | Some server \<Rightarrow>
                       (case TaskStream server of
                          None \<Rightarrow> (Panic, w2)
                        | Some stream \<Rightarrow>
                            (let w3 = log (Send stream
                                        \<lparr>Type = TaskTypeFM, Data = TaskFM_JSON streamId\<rparr>) w2
                             in case send of
                                  Some e \<Rightarrow> (NoPage, w3)
                                | None \<Rightarrow> (SessionPage streamId, w3)))))))"

text \<open>
  \<open>fm\<close>, the user side of the relay. \<open>upgrade\<close> and \<open>userConnected\<close> are the errors,
  if any, of the websocket upgrade and of \<open>UserConnected\<close>. \<open>GoPing\<close> marks the start
  of the keep-alive goroutine, which runs beside the handler and is not followed.
\<close>

definition fm :: "string \<Rightarrow> err option \<Rightarrow> err option \<Rightarrow> world \<Rightarrow> world" where
  "fm streamId upgrade userConnected w =
     (let w0 = log (GetStream streamId) w in
      case rpc_GetStream streamId w0 of
        Inl e \<Rightarrow> w0
      | Inr s \<Rightarrow>
          (let defers = [CloseStream streamId];
               w1 = log Upgrade w0
           in case upgrade of
                Some e \<Rightarrow> run_defers defers w1
              | None \<Rightarrow>
                  (let defers = WsClose # defers;
                       w2 = log GoPing w1;
                       w3 = log (UserConnected streamId) w2
                   in case userConnected of
                        Some e \<Rightarrow> run_defers defers w3
                      | None \<Rightarrow> run_defers defers (log (StartStream streamId 10) w3))))"


section \<open>Notions used in the statements\<close>

text \<open>The state of a process that has no registry entry, no session and no history.\<close>

definition empty_world :: world where
  "empty_world =
     \<lparr>ApiTokenList = Map.empty, UserIDToApiTokenList = Map.empty, Crons = Map.empty,
      ServerList = Map.empty, ioStreams = Map.empty, trace = []\<rparr>"

text \<open>
  The dual-index invariant of the token registry: every key of the primary map is in
  the list of the user that owns it; every entry of a user's list is a key of the
  primary map owned by that user; no user has an empty list.
\<close>

definition dual_index :: "world \<Rightarrow> bool" where
  "dual_index w \<longleftrightarrow>
     (\<forall>t tok. ApiTokenList w t = Some tok \<longrightarrow>
        t \<in> set (slice_of (UserIDToApiTokenList w) (UserID tok))) \<and>
     (\<forall>u l t. UserIDToApiTokenList w u = Some l \<longrightarrow> t \<in> set l \<longrightarrow>
        (\<exists>tok. ApiTokenList w t = Some tok \<and> UserID tok = u)) \<and>
     (\<forall>u. UserIDToApiTokenList w u \<noteq> Some [])"

text \<open>No user's list holds a token twice.\<close>

definition no_duplicates :: "world \<Rightarrow> bool" where
  "no_duplicates w \<longleftrightarrow> (\<forall>u l. UserIDToApiTokenList w u = Some l \<longrightarrow> distinct l)"

text \<open>
  Modelled from the spec: a token string is unique (data model of the spec), and
  \<open>utils.GenerateRandomString\<close>, whose code is not among the sources, supplies it.
  The token it returns, if it returns one, is not a key of the primary map.
\<close>

definition fresh_token :: "world \<Rightarrow> err + string \<Rightarrow> bool" where
  "fresh_token w rand = (case rand of Inl e \<Rightarrow> True | Inr s \<Rightarrow> ApiTokenList w s = None)"

text \<open>
  The states of the token registry that the two operations reach from the empty
  registry, for any users, request bodies and tokens to revoke.
\<close>

inductive token_reachable :: "world \<Rightarrow> bool" where
  start: "ApiTokenList w = Map.empty \<Longrightarrow> UserIDToApiTokenList w = Map.empty \<Longrightarrow>
          token_reachable w"
| issue: "token_reachable w \<Longrightarrow> fresh_token w rand \<Longrightarrow>
          token_reachable (snd (issueNewToken u bind rand w))"
| revoke: "token_reachable w \<Longrightarrow> token_reachable (snd (deleteToken token w))"

fun is_DBDelete :: "event \<Rightarrow> bool" where
  "is_DBDelete (DBDelete t c a) = True"
| "is_DBDelete e = False"

text \<open>
  An example state: user 1 has been issued a token of 32 characters, called
  \<open>tokenA\<close> in the text below.
\<close>

definition tokenA_world :: world where
  "tokenA_world =
     snd (issueNewToken 1 (Inr \<lparr>form_Note = ''ci''\<rparr>) (Inr ''Xk3mQ9vT2bLw8RzN5cHd7JyF4gPs6VuA'') empty_world)"

text \<open>
  The values the two constants have in the upstream project: 0 for the timer-based
  task type (as the comment on the form's \<open>TaskType\<close> field says), 2 for the
  alert-trigger execution mode.
\<close>

definition nezha_consts :: model_consts where
  "nezha_consts = \<lparr>CronTypeCronTask = 0, CronCoverAlertTrigger = 2\<rparr>"






text \<open>The stream on which an agent can be reached, if it is registered and connected.\<close>

definition stream_of :: "(uint64 \<rightharpoonup> Server) \<Rightarrow> uint64 \<Rightarrow> nat option" where
  "stream_of servers sid =
     (case servers sid of None \<Rightarrow> None | Some server \<Rightarrow> TaskStream server)"

text \<open>
  The outcome of the dispatch to the target at position \<open>i\<close>: offline when the agent
  is not registered or has no stream, delivery failed when the write returns an error,
  delivered otherwise.
\<close>

datatype outcome = Offline | DeliveryFailed err | Delivered

definition outcome_of ::
  "(nat \<Rightarrow> err option) \<Rightarrow> (uint64 \<rightharpoonup> Server) \<Rightarrow> nat \<Rightarrow> uint64 \<Rightarrow> outcome" where
  "outcome_of send servers i sid =
     (case stream_of servers sid of
        None \<Rightarrow> Offline
      | Some stream \<Rightarrow>
          (case send i of
             Some e \<Rightarrow> DeliveryFailed e
           | None \<Rightarrow> Delivered))"

text \<open>
  The text that has to follow the decimal identifier of a target in the response, byte
  for byte: a space and the Chinese for "offline", for "delivering the command failed"
  followed by a space and the error, or for "delivering the command succeeded", each
  closed by a line break tag.
\<close>

fun outcome_text :: "outcome \<Rightarrow> string" where
  "outcome_text Offline =
     '' '' @ [CHR 0xE7, CHR 0xA6, CHR 0xBB, CHR 0xE7, CHR 0xBA, CHR 0xBF] @ ''<br/>''"
| "outcome_text (DeliveryFailed e) =
     '' '' @ [CHR 0xE4, CHR 0xB8, CHR 0x8B, CHR 0xE5, CHR 0x8F, CHR 0x91, CHR 0xE6,
      CHR 0x8C, CHR 0x87, CHR 0xE4, CHR 0xBB, CHR 0xA4, CHR 0xE5, CHR 0xA4, CHR 0xB1,
      CHR 0xE8, CHR 0xB4, CHR 0xA5] @ '' '' @ e @ ''<br/>''"
| "outcome_text Delivered =
     '' '' @ [CHR 0xE4, CHR 0xB8, CHR 0x8B, CHR 0xE5, CHR 0x8F, CHR 0x91, CHR 0xE6,
      CHR 0x8C, CHR 0x87, CHR 0xE4, CHR 0xBB, CHR 0xA4, CHR 0xE6, CHR 0x88, CHR 0x90,
      CHR 0xE5, CHR 0x8A, CHR 0x9F] @ ''<br/>''"

fun is_Send :: "event \<Rightarrow> bool" where
  "is_Send (Send stream t) = True"
| "is_Send e = False"

fun is_CloseStream :: "event \<Rightarrow> bool" where
  "is_CloseStream (CloseStream streamId) = True"
| "is_CloseStream e = False"

text \<open>The number of registry locks held after an event, given the number held before.\<close>

fun held_after :: "event \<Rightarrow> nat \<Rightarrow> nat" where
  "held_after (Lock l) n = Suc n"
| "held_after (RLock l) n = Suc n"
| "held_after (Unlock l) n = n - 1"
| "held_after (RUnlock l) n = n - 1"
| "held_after e n = n"

text \<open>
  \<open>sends_at P n evs\<close>: starting with \<open>n\<close> locks held, every stream write in \<open>evs\<close>
  happens when the number of locks held satisfies \<open>P\<close>.
\<close>

fun sends_at :: "(nat \<Rightarrow> bool) \<Rightarrow> nat \<Rightarrow> event list \<Rightarrow> bool" where
  "sends_at P n [] = True"
| "sends_at P n (e # es) = ((if is_Send e then P n else True) \<and> sends_at P (held_after e n) es)"

definition no_send_under_lock :: "event list \<Rightarrow> bool" where
  "no_send_under_lock evs = sends_at (\<lambda>n. n = 0) 0 evs"

definition every_send_under_lock :: "event list \<Rightarrow> bool" where
  "every_send_under_lock evs = sends_at (\<lambda>n. 0 < n) 0 evs"

text \<open>
  The dispatch of \<open>createFM\<close> fails: the identifier does not parse, the agent is not
  in the registry, or the stream write returns an error.
\<close>

definition dispatch_fails :: "string \<Rightarrow> err option \<Rightarrow> world \<Rightarrow> bool" where
  "dispatch_fails IdString send w =
     (case Atoi IdString of
        None \<Rightarrow> True
      | Some serverId \<Rightarrow>
          (case ServerList w (word_of_int serverId) of
             None \<Rightarrow> True
           | Some server \<Rightarrow> send \<noteq> None))"

text \<open>
  Example states: a job registry in which job 5 holds the timer handle 3; an agent
  registry with the agents 1 and 3 connected (streams 11 and 13) and agent 4
  registered without a stream; and the latter after a session has been opened to
  agent 1.
\<close>

definition example_job :: Cron where
  "example_job = zero_Cron\<lparr>ID := 5, Name := ''backup'', Scheduler := ''0 0 3 * * *'',
     Command := ''tar'', CronJobID := 3\<rparr>"

definition cron_world :: world where
  "cron_world = empty_world\<lparr>Crons := [5 \<mapsto> example_job]\<rparr>"

definition example_form :: cronForm where
  "example_form = zero_cronForm\<lparr>form_ID := 5, form_Name := ''backup'',
     form_Scheduler := ''0 30 3 * * *'', form_Command := ''tar'', form_ServersRaw := ''[1]''\<rparr>"

definition agents_world :: world where
  "agents_world = empty_world\<lparr>ServerList :=
     [1 \<mapsto> \<lparr>TaskStream = Some 11\<rparr>, 3 \<mapsto> \<lparr>TaskStream = Some 13\<rparr>, 4 \<mapsto> \<lparr>TaskStream = None\<rparr>]\<rparr>"

definition session_world :: world where
  "session_world = snd (createFM ''1'' True (Inr ''5b1c-session'') None agents_world)"

text \<open>An outcome of the stream writes in which the third write (index 2) fails.\<close>

definition example_send :: "nat \<Rightarrow> err option" where
  "example_send i = (if i = 2 then Some ''EOF'' else None)"

section \<open>Basic facts about states and traces\<close>

lemma world_simps [simp]:
  "ApiTokenList (logs es w) = ApiTokenList w"
  "UserIDToApiTokenList (logs es w) = UserIDToApiTokenList w"
  "Crons (logs es w) = Crons w"
  "ServerList (logs es w) = ServerList w"
  "ioStreams (logs es w) = ioStreams w"
  "trace (logs es w) = trace w @ es"
  "Crons (log e w) = Crons w"
  "ServerList (log e w) = ServerList w"
  "ioStreams (log e w) = ioStreams w"
  by (simp_all add: logs_def log_def)

lemma events_since_simps [simp]:
  "events_since w w = []"
  "trace w' = trace w @ es \<Longrightarrow> events_since w w' = es"
  by (simp_all add: events_since_def)

section \<open>Properties of the multiplexer\<close>

lemma HasPrefix_iff: "HasPrefix s p \<longleftrightarrow> (\<exists>rest. s = p @ rest)"
proof
  assume "HasPrefix s p"
  then have "s = p @ drop (length p) s"
    by (metis HasPrefix_def append_take_drop_id)
  then show "\<exists>rest. s = p @ rest" ..
next
  assume "\<exists>rest. s = p @ rest"
  then show "HasPrefix s p"
    by (auto simp: HasPrefix_def)
qed

text \<open>
  Claim C5. A request goes to the streaming RPC handler exactly when the first
  \<open>Content-Type\<close> value is \<open>application/grpc\<close> and the path is \<open>/\<close>, the service
  name, and anything after it; every other request goes to the plain handler.
\<close>

theorem mux_routes_by_signature:
  "newHTTPandGRPCMux svc httpHandler grpcHandler r =
     (if Header_Get (Header r) ''Content-Type'' = ''application/grpc'' \<and>
         (\<exists>rest. URL_Path r = ''/'' @ svc @ rest)
      then grpcHandler r
      else httpHandler r)"
  unfolding newHTTPandGRPCMux_def HasPrefix_iff by simp

text \<open>
  Three requests: an agent's RPC call, a request with the RPC content type on another
  path, and a request on the RPC path with another content type.
\<close>

theorem mux_routes_by_signature_witness:
  "newHTTPandGRPCMux ''proto.NezhaService'' (\<lambda>r. ''http'') (\<lambda>r. ''grpc'')
     \<lparr>Header = [''Content-Type'' \<mapsto> [''application/grpc'']],
      URL_Path = ''/proto.NezhaService/RequestTask''\<rparr> = ''grpc'' \<and>
   newHTTPandGRPCMux ''proto.NezhaService'' (\<lambda>r. ''http'') (\<lambda>r. ''grpc'')
     \<lparr>Header = [''Content-Type'' \<mapsto> [''application/grpc'']],
      URL_Path = ''/api/v1/token''\<rparr> = ''http'' \<and>
   newHTTPandGRPCMux ''proto.NezhaService'' (\<lambda>r. ''http'') (\<lambda>r. ''grpc'')
     \<lparr>Header = [''Content-Type'' \<mapsto> [''application/json'']],
      URL_Path = ''/proto.NezhaService/RequestTask''\<rparr> = ''http''"
  using
    mux_routes_by_signature [of "''proto.NezhaService''" "\<lambda>r. ''http''" "\<lambda>r. ''grpc''"
      "\<lparr>Header = [''Content-Type'' \<mapsto> [''application/grpc'']],
        URL_Path = ''/proto.NezhaService/RequestTask''\<rparr>"]
    mux_routes_by_signature [of "''proto.NezhaService''" "\<lambda>r. ''http''" "\<lambda>r. ''grpc''"
      "\<lparr>Header = [''Content-Type'' \<mapsto> [''application/grpc'']],
        URL_Path = ''/api/v1/token''\<rparr>"]
    mux_routes_by_signature [of "''proto.NezhaService''" "\<lambda>r. ''http''" "\<lambda>r. ''grpc''"
      "\<lparr>Header = [''Content-Type'' \<mapsto> [''application/json'']],
        URL_Path = ''/proto.NezhaService/RequestTask''\<rparr>"]
  by (simp add: Header_Get_def)

section \<open>Properties of the token registry\<close>

lemma index_of_None: "index_of t l = None \<longleftrightarrow> t \<notin> set l"
  by (induction l) auto

lemma index_of_Some: "index_of t l = Some i \<Longrightarrow> take i l @ drop (i + 1) l = remove1 t l"
  by (induction l arbitrary: i) (auto split: if_splits)

lemma ApiTokenList_log [simp]: "ApiTokenList (log e w) = ApiTokenList w"
  by (simp add: log_def)

lemma UserIDToApiTokenList_log [simp]: "UserIDToApiTokenList (log e w) = UserIDToApiTokenList w"
  by (simp add: log_def)

lemma trace_log [simp]: "trace (log e w) = trace w @ [e]"
  by (simp add: log_def)

lemma ApiTokenList_run_deferred_Unlock [simp]:
  "ApiTokenList (run_deferred (Unlock l) w) = ApiTokenList w"
  "UserIDToApiTokenList (run_deferred (Unlock l) w) = UserIDToApiTokenList w"
  "trace (run_deferred (Unlock l) w) = trace w @ [Unlock l]"
  by simp_all

lemma deleteToken_absent:
  assumes "ApiTokenList w token = None"
  shows "deleteToken token w =
           (bad_request (if token = [] then msg_token_empty else msg_token_not_exist),
            if token = [] then w else logs [Lock ApiLock, Unlock ApiLock] w)"
  using assms by (simp add: deleteToken_def Let_def log_def logs_def)

lemma index_of_cases:
  "(index_of t l = None \<and> t \<notin> set l) \<or>
   (\<exists>i. index_of t l = Some i \<and> t \<in> set l \<and> take i l @ drop (i + 1) l = remove1 t l)"
proof (cases "index_of t l")
  case None
  then show ?thesis by (simp add: index_of_None)
next
  case (Some i)
  moreover from Some have "t \<in> set l"
    using index_of_None [of t l] by auto
  ultimately show ?thesis
    using index_of_Some [of t l i] by simp
qed

lemma deleteToken_present:
  assumes "ApiTokenList w token = Some tok" and "token \<noteq> []"
  shows "ApiTokenList (snd (deleteToken token w)) = (ApiTokenList w)(token := None)"
    and "UserIDToApiTokenList (snd (deleteToken token w)) =
           (let l = slice_of (UserIDToApiTokenList w) (UserID tok);
                m = (if token \<in> set l then (UserIDToApiTokenList w)(UserID tok \<mapsto> remove1 token l)
                     else UserIDToApiTokenList w)
            in if slice_of m (UserID tok) = [] then m(UserID tok := None) else m)"
proof -
  show "ApiTokenList (snd (deleteToken token w)) = (ApiTokenList w)(token := None)"
    using assms by (simp add: deleteToken_def Let_def split: option.splits)
next
  let ?l = "slice_of (UserIDToApiTokenList w) (UserID tok)"
  from index_of_cases [of token ?l]
  show "UserIDToApiTokenList (snd (deleteToken token w)) =
           (let l = slice_of (UserIDToApiTokenList w) (UserID tok);
                m = (if token \<in> set l then (UserIDToApiTokenList w)(UserID tok \<mapsto> remove1 token l)
                     else UserIDToApiTokenList w)
            in if slice_of m (UserID tok) = [] then m(UserID tok := None) else m)"
  proof (elim disjE exE conjE)
    assume "index_of token ?l = None" "token \<notin> set ?l"
    then show ?thesis
      using assms by (simp add: deleteToken_def Let_def)
  next
    fix i
    assume "index_of token ?l = Some i" "token \<in> set ?l"
      "take i ?l @ drop (i + 1) ?l = remove1 token ?l"
    then show ?thesis
      using assms by (simp add: deleteToken_def Let_def slice_of_def)
  qed
qed


lemma issueNewToken_error:
  assumes "bind = Inl e \<or> rand = Inl e"
  shows "snd (issueNewToken u bind rand w) = w"
  using assms by (auto simp: issueNewToken_def split: sum.splits)

lemma issueNewToken_state:
  assumes "bind = Inr tf" and "rand = Inr s"
  shows "ApiTokenList (snd (issueNewToken u bind rand w)) =
           (ApiTokenList w)(s \<mapsto> \<lparr>UserID = u, Token = s, Note = form_Note tf\<rparr>)"
    and "UserIDToApiTokenList (snd (issueNewToken u bind rand w)) =
           (UserIDToApiTokenList w)(u \<mapsto> slice_of (UserIDToApiTokenList w) u @ [s])"
  using assms by (simp_all add: issueNewToken_def Let_def)

lemma dual_index_memD:
  "dual_index w \<Longrightarrow> UserIDToApiTokenList w u = Some l \<Longrightarrow> t \<in> set l \<Longrightarrow>
   \<exists>tok. ApiTokenList w t = Some tok \<and> UserID tok = u"
  unfolding dual_index_def by blast

lemma dual_index_keyD:
  assumes "dual_index w" and "ApiTokenList w t = Some tok"
  shows "\<exists>l. UserIDToApiTokenList w (UserID tok) = Some l \<and> t \<in> set l"
proof -
  have "t \<in> set (slice_of (UserIDToApiTokenList w) (UserID tok))"
    using assms unfolding dual_index_def by blast
  then show ?thesis
    by (cases "UserIDToApiTokenList w (UserID tok)") (simp_all add: slice_of_def)
qed

lemma dual_index_nonemptyD: "dual_index w \<Longrightarrow> UserIDToApiTokenList w u \<noteq> Some []"
  unfolding dual_index_def by blast

lemma issue_preserves_dual_index:
  assumes inv: "dual_index w" and fresh: "ApiTokenList w s = None"
    and T: "ApiTokenList w' = (ApiTokenList w)(s \<mapsto> \<lparr>UserID = u, Token = s, Note = n\<rparr>)"
    and L: "UserIDToApiTokenList w' =
              (UserIDToApiTokenList w)(u \<mapsto> slice_of (UserIDToApiTokenList w) u @ [s])"
  shows "dual_index w'"
  unfolding dual_index_def
proof (intro conjI allI impI)
  fix t tok
  assume a: "ApiTokenList w' t = Some tok"
  show "t \<in> set (slice_of (UserIDToApiTokenList w') (UserID tok))"
  proof (cases "t = s")
    case True
    then show ?thesis using a T L by (auto simp: slice_of_def)
  next
    case False
    then have "ApiTokenList w t = Some tok" using a T by simp
    from dual_index_keyD [OF inv this] show ?thesis
      using L by (auto simp: slice_of_def)
  qed
next
  fix v l t
  assume a: "UserIDToApiTokenList w' v = Some l" and b: "t \<in> set l"
  show "\<exists>tok. ApiTokenList w' t = Some tok \<and> UserID tok = v"
  proof (cases "t = s")
    case True
    have "v = u"
    proof (rule ccontr)
      assume "v \<noteq> u"
      then have "UserIDToApiTokenList w v = Some l" using a L by simp
      from dual_index_memD [OF inv this b] show False using fresh True by simp
    qed
    then show ?thesis using True T by simp
  next
    case False
    have "\<exists>k. UserIDToApiTokenList w v = Some k \<and> t \<in> set k"
    proof (cases "v = u")
      case True
      then have "l = slice_of (UserIDToApiTokenList w) u @ [s]" using a L by simp
      then have "t \<in> set (slice_of (UserIDToApiTokenList w) u)" using b False by simp
      then show ?thesis using True
        by (cases "UserIDToApiTokenList w u") (simp_all add: slice_of_def)
    next
      case False
      then show ?thesis using a b L by simp
    qed
    then obtain k where "UserIDToApiTokenList w v = Some k" "t \<in> set k" by blast
    from dual_index_memD [OF inv this] show ?thesis using False T by simp
  qed
next
  fix v
  show "UserIDToApiTokenList w' v \<noteq> Some []"
    using dual_index_nonemptyD [OF inv, of v] L by simp
qed

lemma issue_preserves_no_duplicates:
  assumes inv: "dual_index w" and nd: "no_duplicates w" and fresh: "ApiTokenList w s = None"
    and L: "UserIDToApiTokenList w' =
              (UserIDToApiTokenList w)(u \<mapsto> slice_of (UserIDToApiTokenList w) u @ [s])"
  shows "no_duplicates w'"
  unfolding no_duplicates_def
proof (intro allI impI)
  fix v l
  assume a: "UserIDToApiTokenList w' v = Some l"
  show "distinct l"
  proof (cases "v = u")
    case False
    then show ?thesis using a L nd by (simp add: no_duplicates_def)
  next
    case True
    then have l: "l = slice_of (UserIDToApiTokenList w) u @ [s]" using a L by simp
    show ?thesis
    proof (cases "UserIDToApiTokenList w u")
      case None
      then show ?thesis using l by (simp add: slice_of_def)
    next
      case (Some k)
      have "s \<notin> set k"
      proof
        assume "s \<in> set k"
        from dual_index_memD [OF inv Some this] show False using fresh by simp
      qed
      moreover have "distinct k" using nd Some by (simp add: no_duplicates_def)
      ultimately show ?thesis using l Some by (simp add: slice_of_def)
    qed
  qed
qed

lemma delete_preserves_dual_index:
  assumes inv: "dual_index w" and nd: "no_duplicates w"
    and present: "ApiTokenList w token = Some tok"
    and T: "ApiTokenList w' = (ApiTokenList w)(token := None)"
    and L: "UserIDToApiTokenList w' =
           (let l = slice_of (UserIDToApiTokenList w) (UserID tok);
                m = (if token \<in> set l then (UserIDToApiTokenList w)(UserID tok \<mapsto> remove1 token l)
                     else UserIDToApiTokenList w)
            in if slice_of m (UserID tok) = [] then m(UserID tok := None) else m)"
  shows "dual_index w'"
proof -
  obtain l where l: "UserIDToApiTokenList w (UserID tok) = Some l" "token \<in> set l"
    using dual_index_keyD [OF inv present] by blast
  have dl: "distinct l"
    using nd l(1) by (simp add: no_duplicates_def)
  have L': "UserIDToApiTokenList w' =
              (if remove1 token l = [] then (UserIDToApiTokenList w)(UserID tok := None)
               else (UserIDToApiTokenList w)(UserID tok \<mapsto> remove1 token l))"
    using L l by (simp add: Let_def slice_of_def)
  show ?thesis
    unfolding dual_index_def
  proof (intro conjI allI impI)
    fix t tok'
    assume a: "ApiTokenList w' t = Some tok'"
    then have t: "t \<noteq> token" "ApiTokenList w t = Some tok'"
      using T by (auto split: if_splits)
    obtain k where k: "UserIDToApiTokenList w (UserID tok') = Some k" "t \<in> set k"
      using dual_index_keyD [OF inv t(2)] by blast
    show "t \<in> set (slice_of (UserIDToApiTokenList w') (UserID tok'))"
    proof (cases "UserID tok' = UserID tok")
      case True
      then have "k = l" using k l by simp
      then have "t \<in> set (remove1 token l)" using k t by simp
      then show ?thesis using True L' by (auto simp: slice_of_def)
    next
      case False
      then show ?thesis using k L' by (simp add: slice_of_def)
    qed
  next
    fix v k t
    assume a: "UserIDToApiTokenList w' v = Some k" "t \<in> set k"
    show "\<exists>tok'. ApiTokenList w' t = Some tok' \<and> UserID tok' = v"
    proof (cases "v = UserID tok")
      case True
      then have "k = remove1 token l"
        using a L' by (auto split: if_splits)
      then have "t \<in> set l" "t \<noteq> token"
        using a dl by auto
      with dual_index_memD [OF inv l(1), of t] show ?thesis
        using T True by simp
    next
      case False
      then have k: "UserIDToApiTokenList w v = Some k"
        using a L' by (auto split: if_splits)
      from dual_index_memD [OF inv k a(2)]
      obtain tok' where tk: "ApiTokenList w t = Some tok'" "UserID tok' = v" by blast
      then have "t \<noteq> token"
        using present False by auto
      then show ?thesis
        using tk T by simp
    qed
  next
    fix v
    show "UserIDToApiTokenList w' v \<noteq> Some []"
      using dual_index_nonemptyD [OF inv, of v] L' by (simp split: if_splits)
  qed
qed

lemma delete_preserves_no_duplicates:
  assumes nd: "no_duplicates w"
    and L: "UserIDToApiTokenList w' =
           (let l = slice_of (UserIDToApiTokenList w) (UserID tok);
                m = (if token \<in> set l then (UserIDToApiTokenList w)(UserID tok \<mapsto> remove1 token l)
                     else UserIDToApiTokenList w)
            in if slice_of m (UserID tok) = [] then m(UserID tok := None) else m)"
  shows "no_duplicates w'"
  unfolding no_duplicates_def
proof (intro allI impI)
  fix v k
  assume a: "UserIDToApiTokenList w' v = Some k"
  show "distinct k"
  proof (cases "v = UserID tok")
    case False
    then have "UserIDToApiTokenList w v = Some k"
      using a L by (simp add: Let_def split: if_splits)
    then show ?thesis using nd by (simp add: no_duplicates_def)
  next
    case True
    show ?thesis
    proof (cases "UserIDToApiTokenList w (UserID tok)")
      case None
      then show ?thesis using a L True by (simp add: Let_def slice_of_def split: if_splits)
    next
      case (Some l)
      then have "distinct l" using nd by (simp add: no_duplicates_def)
      moreover have "k = l \<or> k = remove1 token l"
        using a L True Some by (simp add: Let_def slice_of_def split: if_splits)
      ultimately show ?thesis by auto
    qed
  qed
qed

lemma dual_index_empty: "dual_index empty_world" "no_duplicates empty_world"
  by (simp_all add: dual_index_def no_duplicates_def empty_world_def)

lemma issueNewToken_preserves:
  assumes "dual_index w" and "no_duplicates w" and "fresh_token w rand"
  shows "dual_index (snd (issueNewToken u bind rand w)) \<and>
         no_duplicates (snd (issueNewToken u bind rand w))"
proof (cases bind)
  case (Inl e)
  then show ?thesis using assms issueNewToken_error [of bind e rand u w] by simp
next
  case bind: (Inr tf)
  show ?thesis
  proof (cases rand)
    case (Inl e)
    then show ?thesis using assms issueNewToken_error [of bind e rand u w] by simp
  next
    case (Inr s)
    then have fresh: "ApiTokenList w s = None"
      using assms(3) by (simp add: fresh_token_def)
    note st = issueNewToken_state [OF bind Inr, of u w]
    show ?thesis
      using issue_preserves_dual_index [OF assms(1) fresh st]
        issue_preserves_no_duplicates [OF assms(1,2) fresh st(2)] by simp
  qed
qed

lemma deleteToken_preserves:
  assumes "dual_index w" and "no_duplicates w"
  shows "dual_index (snd (deleteToken token w)) \<and> no_duplicates (snd (deleteToken token w))"
proof (cases "ApiTokenList w token")
  case None
  have "dual_index (logs es w) = dual_index w" "no_duplicates (logs es w) = no_duplicates w" for es
    by (simp_all add: dual_index_def no_duplicates_def logs_def)
  then show ?thesis
    using assms deleteToken_absent [OF None] by simp
next
  case (Some tok)
  show ?thesis
  proof (cases "token = []")
    case True
    then show ?thesis using assms by (simp add: deleteToken_def)
  next
    case False
    note st = deleteToken_present [OF Some False]
    show ?thesis
      using delete_preserves_dual_index [OF assms Some st]
        delete_preserves_no_duplicates [OF assms(2) st(2)] by simp
  qed
qed

lemma token_reachable_invariant:
  "token_reachable w \<Longrightarrow> dual_index w \<and> no_duplicates w"
proof (induction rule: token_reachable.induct)
  case (start w)
  then show ?case by (simp add: dual_index_def no_duplicates_def slice_of_def)
next
  case (issue w rand u bind)
  then show ?case using issueNewToken_preserves by blast
next
  case (revoke w token)
  then show ?case using deleteToken_preserves by blast
qed

text \<open>
  Claim C2. In every state that \<open>issueNewToken\<close> and \<open>deleteToken\<close> reach from the
  empty registry the dual-index invariant holds, and each of the two operations leads
  to a state in which it holds again: a token is a key of the primary map exactly
  when it is in the list of the user that owns it, and no user has an empty list.
\<close>

theorem token_registry_keeps_dual_index:
  assumes "token_reachable w"
  shows "dual_index w \<and>
         (fresh_token w rand \<longrightarrow> dual_index (snd (issueNewToken u bind rand w))) \<and>
         dual_index (snd (deleteToken token w))"
  using assms token_reachable_invariant token_reachable.issue token_reachable.revoke
  by blast

lemma tokenA_world_maps:
  "ApiTokenList tokenA_world = [''Xk3mQ9vT2bLw8RzN5cHd7JyF4gPs6VuA'' \<mapsto> \<lparr>UserID = 1, Token = ''Xk3mQ9vT2bLw8RzN5cHd7JyF4gPs6VuA'', Note = ''ci''\<rparr>]"
  "UserIDToApiTokenList tokenA_world = [1 \<mapsto> [''Xk3mQ9vT2bLw8RzN5cHd7JyF4gPs6VuA'']]"
  by (simp_all add: tokenA_world_def issueNewToken_state empty_world_def slice_of_def)

text \<open>
  The theorem at work: the state in which user 1 owns \<open>tokenA\<close> is reached from the
  empty registry; issuing a new token to user 2 and revoking \<open>tokenA\<close> both
  keep the invariant, and the revocation removes the token from the primary map and
  leaves user 1 without an entry in the reverse index.
\<close>

theorem token_registry_keeps_dual_index_witness:
  "token_reachable tokenA_world \<and>
   fresh_token tokenA_world (Inr ''b0Ye1Wq2Zr3Ts4Ui5Op6Al7Sk8Dj9FhG'') \<and>
   dual_index tokenA_world \<and>
   dual_index (snd (issueNewToken 2 (Inr \<lparr>form_Note = ''''\<rparr>) (Inr ''b0Ye1Wq2Zr3Ts4Ui5Op6Al7Sk8Dj9FhG'') tokenA_world)) \<and>
   dual_index (snd (deleteToken ''Xk3mQ9vT2bLw8RzN5cHd7JyF4gPs6VuA'' tokenA_world)) \<and>
   ApiTokenList tokenA_world ''Xk3mQ9vT2bLw8RzN5cHd7JyF4gPs6VuA'' \<noteq> None \<and>
   ApiTokenList (snd (deleteToken ''Xk3mQ9vT2bLw8RzN5cHd7JyF4gPs6VuA'' tokenA_world)) ''Xk3mQ9vT2bLw8RzN5cHd7JyF4gPs6VuA'' = None \<and>
   UserIDToApiTokenList (snd (deleteToken ''Xk3mQ9vT2bLw8RzN5cHd7JyF4gPs6VuA'' tokenA_world)) 1 = None"
proof -
  have "token_reachable empty_world"
    by (rule token_reachable.start) (simp_all add: empty_world_def)
  moreover have "fresh_token empty_world (Inr ''Xk3mQ9vT2bLw8RzN5cHd7JyF4gPs6VuA'')"
    by (simp add: fresh_token_def empty_world_def)
  ultimately have a: "token_reachable tokenA_world"
    unfolding tokenA_world_def by (rule token_reachable.issue)
  have f: "fresh_token tokenA_world (Inr ''b0Ye1Wq2Zr3Ts4Ui5Op6Al7Sk8Dj9FhG'')"
    by (simp add: fresh_token_def tokenA_world_maps)
  have p: "ApiTokenList tokenA_world ''Xk3mQ9vT2bLw8RzN5cHd7JyF4gPs6VuA'' =
             Some \<lparr>UserID = 1, Token = ''Xk3mQ9vT2bLw8RzN5cHd7JyF4gPs6VuA'', Note = ''ci''\<rparr>"
    by (simp add: tokenA_world_maps)
  have q: "UserIDToApiTokenList (snd (deleteToken ''Xk3mQ9vT2bLw8RzN5cHd7JyF4gPs6VuA'' tokenA_world)) 1 = None"
    by (simp add: deleteToken_present(2) [OF p] tokenA_world_maps slice_of_def Let_def)
  have t: "ApiTokenList (snd (deleteToken ''Xk3mQ9vT2bLw8RzN5cHd7JyF4gPs6VuA'' tokenA_world)) ''Xk3mQ9vT2bLw8RzN5cHd7JyF4gPs6VuA'' = None"
    by (simp add: deleteToken_present(1) [OF p])
  show ?thesis
    using a f p q t
      token_registry_keeps_dual_index [OF a, of "Inr ''b0Ye1Wq2Zr3Ts4Ui5Op6Al7Sk8Dj9FhG''" 2
        "Inr \<lparr>form_Note = ''''\<rparr>" "''Xk3mQ9vT2bLw8RzN5cHd7JyF4gPs6VuA''"]
    by simp
qed

text \<open>
  The route of \<open>deleteToken\<close>, \<open>DELETE /token/:token\<close>, binds the parameter to a
  non-empty path segment, so the handler is not called with the empty token; the guard
  at its head would turn it away with the state unchanged.
\<close>

lemma deleteToken_empty_token: "deleteToken [] w = (bad_request msg_token_empty, w)"
  by (simp add: deleteToken_def)

text \<open>
  Claim C9. A \<open>deleteToken\<close> request whose token is not a key of the primary map is
  answered with the not-found error (code 400, the message of the source that the
  token does not exist), both indices are exactly as before the call and no database
  deletion is issued.
\<close>

theorem deleteToken_unknown_token:
  assumes "token \<noteq> []" and "ApiTokenList w token = None"
  shows "fst (deleteToken token w) =
           \<lparr>Code = 400, Message = msg_token_not_exist, Result = []\<rparr> \<and>
         ApiTokenList (snd (deleteToken token w)) = ApiTokenList w \<and>
         UserIDToApiTokenList (snd (deleteToken token w)) = UserIDToApiTokenList w \<and>
         filter is_DBDelete (events_since w (snd (deleteToken token w))) = []"
  using deleteToken_absent [OF assms(2)] assms(1)
  by (simp add: bad_request_def StatusBadRequest_def)

theorem deleteToken_unknown_token_witness:
  "''tokenZ'' \<noteq> [] \<and>
   ApiTokenList tokenA_world ''tokenZ'' = None \<and>
   fst (deleteToken ''tokenZ'' tokenA_world) =
     \<lparr>Code = 400, Message = msg_token_not_exist, Result = []\<rparr> \<and>
   ApiTokenList (snd (deleteToken ''tokenZ'' tokenA_world)) = ApiTokenList tokenA_world \<and>
   UserIDToApiTokenList (snd (deleteToken ''tokenZ'' tokenA_world)) =
     UserIDToApiTokenList tokenA_world \<and>
   filter is_DBDelete (events_since tokenA_world (snd (deleteToken ''tokenZ'' tokenA_world))) = []"
proof -
  have n: "''tokenZ'' \<noteq> []" by simp
  have a: "ApiTokenList tokenA_world ''tokenZ'' = None"
    by (simp add: tokenA_world_maps)
  show ?thesis
    using n a deleteToken_unknown_token [OF n a] by simp
qed

section \<open>Properties of the generic delete\<close>

lemma ParseUint_7: "fst (ParseUint ''7'') = 7"
  by (simp add: ParseUint_def is_digit_def digit_val_def maxUint64_def)

text \<open>
  Claim C10. A delete request whose model is none of \<open>nat\<close>, \<open>monitor\<close>, \<open>cron\<close>,
  \<open>alert-rule\<close> and whose identifier parses to a value of at least 1 is answered with
  code 200, and the state, trace included, is exactly as before: nothing is deleted
  and no call leaves the handler.
\<close>

theorem delete_unknown_model_accepted:
  assumes "model_param \<notin> {''nat'', ''monitor'', ''cron'', ''alert-rule''}"
    and "1 \<le> fst (ParseUint id_param)"
  shows "delete db model_param id_param w = (\<lparr>Code = 200, Message = [], Result = []\<rparr>, w)"
proof -
  have "\<not> fst (ParseUint id_param) < 1"
    using assms(2) by (cases "fst (ParseUint id_param) = 0") (simp_all add: not_less)
  with assms(1) show ?thesis
    by (simp add: delete_def ok_response_def StatusOK_def)
qed

theorem delete_unknown_model_accepted_witness:
  "''token'' \<notin> {''nat'', ''monitor'', ''cron'', ''alert-rule''} \<and>
   1 \<le> fst (ParseUint ''7'') \<and>
   delete (\<lambda>q. Some ''database is locked'') ''token'' ''7'' tokenA_world =
     (\<lparr>Code = 200, Message = [], Result = []\<rparr>, tokenA_world)"
proof -
  have a: "''token'' \<notin> {''nat'', ''monitor'', ''cron'', ''alert-rule''}" by simp
  have b: "1 \<le> fst (ParseUint ''7'')" by (simp add: ParseUint_7)
  show ?thesis
    using a b delete_unknown_model_accepted [OF a b] by simp
qed

section \<open>Properties of the scheduled-job handler\<close>

text \<open>
  Claim C8. When the submitted job has the timer-based task type and the alert-trigger
  execution mode, \<open>addOrEditCron\<close> answers with code 400 and the message of the
  source, and the state is exactly as before: no transaction is begun, no timer is
  registered, no job record is stored.
\<close>

theorem addOrEditCron_rejects_alert_trigger_cover:
  assumes "bind = Inr cf"
    and "form_TaskType cf = CronTypeCronTask mc"
    and "form_Cover cf = CronCoverAlertTrigger mc"
  shows "addOrEditCron mc bind unmarshal db new_id addfunc w =
           (\<lparr>Code = 400, Message = msg_request_error @ msg_cron_cover, Result = []\<rparr>, w)"
  using assms
  by (simp add: addOrEditCron_def bind_cron_def Let_def bad_request_def StatusBadRequest_def
      zero_Cron_def split: sum.splits)

theorem addOrEditCron_rejects_alert_trigger_cover_witness:
  "form_TaskType (example_form\<lparr>form_Cover := 2\<rparr>) = CronTypeCronTask nezha_consts \<and>
   form_Cover (example_form\<lparr>form_Cover := 2\<rparr>) = CronCoverAlertTrigger nezha_consts \<and>
   addOrEditCron nezha_consts (Inr (example_form\<lparr>form_Cover := 2\<rparr>)) (\<lambda>raw. Inr [1])
     (\<lambda>q. None) 9 (Inr 4) cron_world =
     (\<lparr>Code = 400, Message = msg_request_error @ msg_cron_cover, Result = []\<rparr>, cron_world)"
proof -
  have a: "form_TaskType (example_form\<lparr>form_Cover := 2\<rparr>) = CronTypeCronTask nezha_consts"
    by (simp add: example_form_def zero_cronForm_def nezha_consts_def)
  have b: "form_Cover (example_form\<lparr>form_Cover := 2\<rparr>) = CronCoverAlertTrigger nezha_consts"
    by (simp add: nezha_consts_def)
  show ?thesis
    using a b addOrEditCron_rejects_alert_trigger_cover [OF refl a b] by simp
qed



lemma trace_run_defers_Unlock [simp]:
  "trace (run_defers [Unlock l] w) = trace w @ [Unlock l]"
  "trace (run_defers [RUnlock l] w) = trace w @ [RUnlock l]"
  "Crons (run_defers [Unlock l] w) = Crons w"
  "Crons (run_defers [RUnlock l] w) = Crons w"
  by simp_all


























section \<open>Properties of the task dispatch\<close>

lemma agents_world_simps:
  "ServerList agents_world =
     [1 \<mapsto> \<lparr>TaskStream = Some 11\<rparr>, 3 \<mapsto> \<lparr>TaskStream = Some 13\<rparr>, 4 \<mapsto> \<lparr>TaskStream = None\<rparr>]"
  "trace agents_world = []" "ioStreams agents_world = Map.empty"
  by (simp_all add: agents_world_def empty_world_def)

lemma forceUpdate_loop_length:
  "length (fst (forceUpdate_loop send servers i ids)) = length ids"
  by (induction ids arbitrary: i) (simp_all add: Let_def)

lemma forceUpdate_loop_sends:
  "filter is_Send (snd (forceUpdate_loop send servers i ids)) =
     map (\<lambda>stream. Send stream upgrade_task) (List.map_filter (stream_of servers) ids)"
  by (induction ids arbitrary: i)
    (simp_all add: Let_def List.map_filter_simps stream_of_def split: option.splits)

lemma outcome_text_inj: "outcome_text a = outcome_text b \<Longrightarrow> a = b"
  by (cases a; cases b) simp_all

lemma show_nat_nonempty: "show_nat n \<noteq> []"
  by (subst show_nat.simps) simp

lemma show_nat_leading: "n \<noteq> 0 \<Longrightarrow> hd (show_nat n) \<noteq> CHR ''0''"
proof (induction n rule: show_nat.induct)
  case (1 n)
  show ?case
  proof (cases "n < 10")
    case True
    have "of_char (char_of (48 + n)) = 48 + n"
      using True by simp
    moreover have "of_char (CHR ''0'') = (48::nat)" by simp
    ultimately have "char_of (48 + n) \<noteq> CHR ''0''"
      using "1.prems" by (metis add_cancel_right_right)
    then show ?thesis
      using True by (subst show_nat.simps) simp
  next
    case False
    then have "n div 10 \<noteq> 0" by simp
    then have "hd (show_nat (n div 10)) \<noteq> CHR ''0''"
      using "1.IH" False by simp
    then show ?thesis
      using False show_nat_nonempty [of "n div 10"]
      by (subst show_nat.simps) simp
  qed
qed

lemma show_nat_zero: "show_nat 0 = ''0''"
  by (subst show_nat.simps) (simp add: char_of_eq_iff)

lemma ParseUint_loop_show_nat:
  "a * 10 ^ length (show_nat n) + n \<le> maxUint64 \<Longrightarrow>
   ParseUint_loop a (show_nat n @ rest) =
     ParseUint_loop (a * 10 ^ length (show_nat n) + n) rest"
proof (induction n arbitrary: a rest rule: show_nat.induct)
  case (1 n)
  show ?case
  proof (cases "n < 10")
    case True
    then have s: "show_nat n = [char_of (48 + n)]"
      by (subst show_nat.simps) simp
    have d: "is_digit (char_of (48 + n))" "digit_val (char_of (48 + n)) = n"
      using True by (simp_all add: is_digit_def digit_val_def)
    have "a * 10 + n \<le> maxUint64"
      using "1.prems" s by simp
    then have "\<not> a \<ge> maxUint64 div 10 + 1" "\<not> a * 10 + n > maxUint64"
      by (simp_all add: maxUint64_def)
    then show ?thesis
      using s d by simp
  next
    case False
    let ?q = "n div 10" and ?r = "n mod 10"
    have s: "show_nat n = show_nat ?q @ [char_of (48 + ?r)]"
      using False by (subst show_nat.simps) simp
    have d: "is_digit (char_of (48 + ?r))" "digit_val (char_of (48 + ?r)) = ?r"
      by (simp_all add: is_digit_def digit_val_def)
    let ?k = "a * 10 ^ length (show_nat ?q) + ?q"
    have len: "a * 10 ^ length (show_nat n) + n = ?k * 10 + ?r"
      by (simp add: s algebra_simps)
    from "1.prems" have bound: "?k * 10 + ?r \<le> maxUint64"
      by (simp only: len)
    then have k: "?k \<le> maxUint64"
      by simp
    have step: "\<not> ?k \<ge> maxUint64 div 10 + 1" "\<not> ?k * 10 + ?r > maxUint64"
      using bound by (simp_all add: maxUint64_def)
    have "ParseUint_loop a (show_nat n @ rest) =
            ParseUint_loop a (show_nat ?q @ (char_of (48 + ?r) # rest))"
      by (simp add: s)
    also have "\<dots> = ParseUint_loop ?k (char_of (48 + ?r) # rest)"
      using "1.IH" [OF False k] .
    also have "\<dots> = ParseUint_loop (?k * 10 + ?r) rest"
      using step d by simp
    finally show ?thesis
      by (simp only: len)
  qed
qed

lemma ParseUint_show_nat: "ParseUint (show_nat (unat sid)) = (sid, None)"
proof -
  have "unat sid \<le> maxUint64"
    using unsigned_less [of sid, where ?'a = nat] by (simp add: maxUint64_def)
  then have "ParseUint_loop 0 (show_nat (unat sid) @ []) = ParseUint_loop (unat sid) []"
    using ParseUint_loop_show_nat [of 0 "unat sid" "[]"] by simp
  then show ?thesis
    by (simp add: ParseUint_def show_nat_nonempty)
qed

lemma forceUpdate_loop_text:
  "k < length ids \<Longrightarrow>
   fst (forceUpdate_loop send servers i ids) ! k =
     show_nat (unat (ids ! k)) @ outcome_text (outcome_of send servers (i + k) (ids ! k))"
proof (induction ids arbitrary: i k)
  case Nil
  then show ?case by simp
next
  case (Cons sid rest)
  show ?case
  proof (cases k)
    case 0
    then show ?thesis
      by (simp add: Let_def outcome_of_def stream_of_def fmt_offline_def fmt_send_failed_def
          fmt_send_ok_def msg_offline_def msg_send_failed_def msg_send_ok_def
          split: option.splits)
  next
    case (Suc j)
    then show ?thesis
      using Cons.IH [of j "Suc i"] Cons.prems by (simp add: Let_def)
  qed
qed

lemma forceUpdate_loop_texts:
  "fst (forceUpdate_loop send servers 0 ids) =
     map (\<lambda>i. show_nat (unat (ids ! i)) @ outcome_text (outcome_of send servers i (ids ! i)))
       [0..<length ids]"
  by (rule nth_equalityI) (simp_all add: forceUpdate_loop_length forceUpdate_loop_text)

text \<open>
  Claim C3. For every list of agent identifiers that \<open>forceUpdate\<close> receives, the
  message of the response is the concatenation, over the positions of the list in
  order, of one entry per element: the identifier in decimal (the numeral that
  parses back to the identifier, without leading zeros) followed by the text of the
  target's outcome, which is the offline text when the agent is not registered or
  has no stream, the delivery-failed text with the error when the write fails, and
  the success text otherwise. The text determines the outcome, so offline and
  delivery failed are reported differently. The handler attempts a write on the
  stream of every target that has one, whatever the outcome of the earlier writes.
\<close>

theorem forceUpdate_reports_every_target:
  "fst (forceUpdate (Inr ids) send w) =
     \<lparr>Code = 200,
      Message =
        concat (map (\<lambda>i. show_nat (unat (ids ! i)) @
                          outcome_text (outcome_of send (ServerList w) i (ids ! i)))
                  [0..<length ids]),
      Result = []\<rparr> \<and>
   ParseUint (show_nat (unat sid)) = (sid, None) \<and>
   show_nat 0 = ''0'' \<and> hd (show_nat (Suc n)) \<noteq> CHR ''0'' \<and>
   (outcome_text a = outcome_text b) = (a = b) \<and>
   filter is_Send (events_since w (snd (forceUpdate (Inr ids) send w))) =
     map (\<lambda>stream. Send stream upgrade_task) (List.map_filter (stream_of (ServerList w)) ids)"
  using outcome_text_inj [of a b] show_nat_leading [of "Suc n"]
  by (auto simp: forceUpdate_def Let_def forceUpdate_loop_texts forceUpdate_loop_sends
      events_since_def ParseUint_show_nat show_nat_zero StatusOK_def)

lemma show_nat_examples:
  "show_nat (Suc 0) = ''1''" "show_nat 2 = ''2''" "show_nat 3 = ''3''" "show_nat 4 = ''4''"
  by (subst show_nat.simps, simp add: char_of_eq_iff)+

text \<open>
  The theorem at work on four targets: agent 1 connected, agent 2 unknown, agent 3
  connected with a failing write, agent 4 registered without a stream.
\<close>

theorem forceUpdate_reports_every_target_witness:
  "Message (fst (forceUpdate (Inr [1, 2, 3, 4]) example_send agents_world)) =
     ''1'' @ outcome_text Delivered @ ''2'' @ outcome_text Offline @
     ''3'' @ outcome_text (DeliveryFailed ''EOF'') @ ''4'' @ outcome_text Offline \<and>
   ParseUint ''3'' = (3, None) \<and>
   filter is_Send
     (events_since agents_world (snd (forceUpdate (Inr [1, 2, 3, 4]) example_send agents_world))) =
     [Send 11 upgrade_task, Send 13 upgrade_task]"
proof -
  note inst = forceUpdate_reports_every_target [of "[1, 2, 3, 4]" example_send agents_world 3 0
      Offline Offline]
  have e: "List.map_filter (stream_of (ServerList agents_world)) [1, 2, 3, 4] = [11, 13]"
    by (simp add: List.map_filter_simps stream_of_def agents_world_simps)
  have o: "outcome_of example_send (ServerList agents_world) 0 1 = Delivered"
    "outcome_of example_send (ServerList agents_world) (Suc 0) 2 = Offline"
    "outcome_of example_send (ServerList agents_world) (Suc (Suc 0)) 3 = DeliveryFailed ''EOF''"
    "outcome_of example_send (ServerList agents_world) (Suc (Suc (Suc 0))) 4 = Offline"
    by (simp_all add: outcome_of_def stream_of_def agents_world_simps example_send_def)
  show ?thesis
    using inst e o by (simp add: show_nat_examples del: outcome_text.simps)
qed

lemma sends_at_append:
  "sends_at P n (xs @ ys) = (sends_at P n xs \<and> sends_at P (fold held_after xs n) ys)"
  by (induction xs arbitrary: n) auto

lemma forceUpdate_loop_unlocked:
  "sends_at (\<lambda>n. n = 0) 0 (snd (forceUpdate_loop send servers i ids)) \<and>
   fold held_after (snd (forceUpdate_loop send servers i ids)) 0 = 0"
  by (induction ids arbitrary: i) (auto simp: Let_def sends_at_append split: option.splits)

lemma report_loop_locked:
  "sends_at (\<lambda>n. 0 < n) (Suc m) (report_loop servers ks) \<and>
   fold held_after (report_loop servers ks) (Suc m) = Suc m"
  by (induction ks) (auto split: option.splits)

lemma forceUpdate_unlocked:
  "no_send_under_lock (events_since w (snd (forceUpdate bind send w)))"
  using forceUpdate_loop_unlocked
  by (cases bind) (simp_all add: forceUpdate_def Let_def no_send_under_lock_def events_since_def)

lemma createFM_unlocked:
  "no_send_under_lock (events_since w (snd (createFM IdString authorized uuid send w)))"
  by (simp add: createFM_def Let_def no_send_under_lock_def events_since_def
      rpc_CreateStream_def log_def logs_def split: sum.splits option.splits)

lemma dispatchReportInfoTask_events:
  "events_since w (dispatchReportInfoTask order w) =
     [Sleep 15, RLock ServerLock] @ report_loop (ServerList w) order @ [RUnlock ServerLock]"
  by (simp add: dispatchReportInfoTask_def Let_def events_since_def log_def logs_def)

lemma dispatchReportInfoTask_locked:
  "every_send_under_lock (events_since w (dispatchReportInfoTask order w))"
  using report_loop_locked [of 0 "ServerList w" order]
  by (simp add: dispatchReportInfoTask_events every_send_under_lock_def sends_at_append)

text \<open>
  Claim C6, amended. \<open>forceUpdate\<close> and \<open>createFM\<close> hold no registry lock when they
  write to an agent's stream: the read lock is released after the lookup. The
  periodic fan-out \<open>dispatchReportInfoTask\<close> takes the read lock of the agent
  registry before its loop and releases it on return, so each of its stream writes
  is made while the lock is held.
\<close>

theorem sends_and_the_registry_lock:
  "no_send_under_lock (events_since w (snd (forceUpdate bind send w))) \<and>
   no_send_under_lock (events_since w (snd (createFM IdString authorized uuid send' w))) \<and>
   every_send_under_lock (events_since w (dispatchReportInfoTask order w))"
  using forceUpdate_unlocked createFM_unlocked dispatchReportInfoTask_locked by simp

theorem sends_and_the_registry_lock_witness:
  "no_send_under_lock
     (events_since agents_world (snd (forceUpdate (Inr [1, 2, 3, 4]) example_send agents_world))) \<and>
   no_send_under_lock
     (events_since agents_world
        (snd (createFM ''1'' True (Inr ''5b1c-session'') None agents_world))) \<and>
   every_send_under_lock (events_since agents_world (dispatchReportInfoTask [1, 3, 4] agents_world))"
  using sends_and_the_registry_lock [of agents_world "Inr [1, 2, 3, 4]" example_send "''1''" True
      "Inr ''5b1c-session''" None "[1, 3, 4]"]
  by simp

text \<open>
  Claim C6 as stated does not hold: with two connected agents the periodic fan-out
  performs both stream writes between taking and releasing the registry lock.
\<close>

theorem dispatchReportInfoTask_sends_under_lock_counterexample:
  "events_since agents_world (dispatchReportInfoTask [1, 3, 4] agents_world) =
     [Sleep 15, RLock ServerLock, Send 11 report_task, Send 13 report_task, RUnlock ServerLock] \<and>
   \<not> no_send_under_lock (events_since agents_world (dispatchReportInfoTask [1, 3, 4] agents_world))"
  by (simp add: dispatchReportInfoTask_events agents_world_simps no_send_under_lock_def)

section \<open>Properties of the session handlers\<close>

lemma Atoi_examples: "Atoi ''1'' = Some 1" "Atoi ''42'' = Some 42" "Atoi ''agent-1'' = None"
  by (simp_all add: Atoi_def is_digit_def digit_val_def maxUint64_def)

lemma createFM_created:
  assumes "authorized" and "uuid = Inr streamId"
  shows "ioStreams (snd (createFM IdString authorized uuid send w)) streamId = Some Created"
    and "filter is_CloseStream (events_since w (snd (createFM IdString authorized uuid send w))) = []"
  using assms
  by (simp_all add: createFM_def Let_def rpc_CreateStream_def log_def logs_def events_since_def
      split: option.splits)

lemma createFM_no_page:
  assumes "authorized" and "uuid = Inr streamId" and "dispatch_fails IdString send w"
  shows "fst (createFM IdString authorized uuid send w) \<in> {NoPage, Panic}"
  using assms
  by (auto simp: createFM_def Let_def dispatch_fails_def rpc_CreateStream_def log_def logs_def
      split: option.splits)

text \<open>
  Claim C1, amended. When \<open>createFM\<close> has created the session and the dispatch to the
  agent then fails (the identifier does not parse, the agent is not in the registry,
  or the stream write returns an error), the handler returns without the session
  page and without closing the session: the session stays registered in state
  \<open>Created\<close>, and the handler makes no \<open>CloseStream\<close> call.
\<close>

theorem createFM_failed_dispatch_leaves_session:
  assumes "authorized" and "uuid = Inr streamId" and "dispatch_fails IdString send w"
  shows "fst (createFM IdString authorized uuid send w) \<in> {NoPage, Panic} \<and>
         ioStreams (snd (createFM IdString authorized uuid send w)) streamId = Some Created \<and>
         filter is_CloseStream
           (events_since w (snd (createFM IdString authorized uuid send w))) = []"
  using createFM_created [OF assms(1,2)] createFM_no_page [OF assms] by simp

theorem createFM_failed_dispatch_leaves_session_witness:
  "dispatch_fails ''agent-1'' None agents_world \<and>
   dispatch_fails ''42'' None agents_world \<and>
   dispatch_fails ''1'' (Some ''transport is closing'') agents_world \<and>
   fst (createFM ''agent-1'' True (Inr ''5b1c-session'') None agents_world) \<in> {NoPage, Panic} \<and>
   ioStreams (snd (createFM ''agent-1'' True (Inr ''5b1c-session'') None agents_world))
     ''5b1c-session'' = Some Created \<and>
   ioStreams (snd (createFM ''1'' True (Inr ''5b1c-session'') (Some ''transport is closing'')
     agents_world)) ''5b1c-session'' = Some Created \<and>
   filter is_CloseStream (events_since agents_world
     (snd (createFM ''1'' True (Inr ''5b1c-session'') (Some ''transport is closing'')
        agents_world))) = []"
proof -
  have a: "dispatch_fails ''agent-1'' None agents_world"
    by (simp add: dispatch_fails_def Atoi_examples)
  have b: "dispatch_fails ''42'' None agents_world"
    by (simp add: dispatch_fails_def Atoi_examples agents_world_simps)
  have c: "dispatch_fails ''1'' (Some ''transport is closing'') agents_world"
    by (simp add: dispatch_fails_def Atoi_examples agents_world_simps)
  show ?thesis
    using a b c
      createFM_failed_dispatch_leaves_session [OF TrueI refl a, of "''5b1c-session''"]
      createFM_failed_dispatch_leaves_session [OF TrueI refl c, of "''5b1c-session''"]
    by simp
qed

text \<open>
  Claim C1 as stated does not hold: a request for the unknown agent 42 leaves the
  session it has created in the session table, in state \<open>Created\<close>.
\<close>

theorem createFM_session_not_destroyed_counterexample:
  "dispatch_fails ''42'' None agents_world \<and>
   createFM ''42'' True (Inr ''5b1c-session'') None agents_world =
     (NoPage, agents_world
        \<lparr>ioStreams := [''5b1c-session'' \<mapsto> Created],
         trace := [CreateStream ''5b1c-session'', RLock ServerLock, RUnlock ServerLock]\<rparr>) \<and>
   ioStreams (snd (createFM ''42'' True (Inr ''5b1c-session'') None agents_world))
     ''5b1c-session'' = Some Created"
  by (simp add: dispatch_fails_def createFM_def Atoi_examples agents_world_simps Let_def
      rpc_CreateStream_def log_def logs_def)

lemma session_world_simps:
  "ioStreams session_world = [''5b1c-session'' \<mapsto> Created]"
  by (simp add: session_world_def createFM_def Atoi_examples agents_world_simps Let_def
      rpc_CreateStream_def log_def logs_def)

text \<open>
  Claim C7. Whenever the session lookup of \<open>fm\<close> succeeds, the run makes exactly one
  \<open>CloseStream\<close> call, for this session, as its last call, whether the websocket
  upgrade fails, \<open>UserConnected\<close> fails, or the relay runs and ends; afterwards the
  session is gone from the session table.
\<close>

theorem fm_closes_stream_once:
  assumes "rpc_GetStream streamId w = Inr s"
  shows "filter is_CloseStream (events_since w (fm streamId upgrade userConnected w)) =
           [CloseStream streamId] \<and>
         last (events_since w (fm streamId upgrade userConnected w)) = CloseStream streamId \<and>
         ioStreams (fm streamId upgrade userConnected w) streamId = None"
  using assms
  by (cases upgrade; cases userConnected)
    (simp_all add: fm_def rpc_GetStream_def rpc_CloseStream_def log_def Let_def
      events_since_def split: option.splits)

text \<open>The three exit paths on the session opened in \<open>session_world\<close>.\<close>

theorem fm_closes_stream_once_witness:
  "rpc_GetStream ''5b1c-session'' session_world = Inr Created \<and>
   filter is_CloseStream
     (events_since session_world (fm ''5b1c-session'' (Some ''bad handshake'') None session_world)) =
     [CloseStream ''5b1c-session''] \<and>
   filter is_CloseStream
     (events_since session_world (fm ''5b1c-session'' None (Some ''stream not found'') session_world)) =
     [CloseStream ''5b1c-session''] \<and>
   events_since session_world (fm ''5b1c-session'' None None session_world) =
     [GetStream ''5b1c-session'', Upgrade, GoPing, UserConnected ''5b1c-session'',
      StartStream ''5b1c-session'' 10, WsClose, CloseStream ''5b1c-session''] \<and>
   ioStreams (fm ''5b1c-session'' None None session_world) ''5b1c-session'' = None"
proof -
  have a: "rpc_GetStream ''5b1c-session'' session_world = Inr Created"
    by (simp add: rpc_GetStream_def session_world_simps)
  have b: "events_since session_world (fm ''5b1c-session'' None None session_world) =
     [GetStream ''5b1c-session'', Upgrade, GoPing, UserConnected ''5b1c-session'',
      StartStream ''5b1c-session'' 10, WsClose, CloseStream ''5b1c-session'']"
    by (simp add: fm_def rpc_GetStream_def session_world_simps rpc_CloseStream_def log_def
        Let_def events_since_def)
  show ?thesis
    using a b
      fm_closes_stream_once [OF a, of "Some ''bad handshake''" None]
      fm_closes_stream_once [OF a, of None "Some ''stream not found''"]
      fm_closes_stream_once [OF a, of None None]
    by simp
qed

end
